theory Spec2Isabelle
  imports Main "HOL-Library.Char_ord" "HOL-Library.List_Lexorder"
begin

section \<open>Stack updater: \<^verbatim>\<open>update_stack_definition.py\<close>\<close>

text \<open>
  The script reads a stack definition, asks the catalog service for the updates of every
  member and moves the member to the latest valid one. The catalog's answers and the stack
  file are JSON objects read into Python dictionaries, so any key may be absent: every
  field of a record read from JSON is an \<open>option\<close>, with \<open>None\<close> for an absent key. A field that
  is present holds a value of the type the catalog gives it (a string, a boolean, a list,
  an object). Python strings are compared by code point, which on \<open>string\<close> is the
  lexicographic order of the character codes.

  A subscript \<^verbatim>\<open>d["k"]\<close> on an absent key raises; \<^verbatim>\<open>d.get("k")\<close> gives Python's
  \<^verbatim>\<open>None\<close>. Exceptions are values of the type \<open>error\<close>; a computation that may raise
  returns \<open>error + 'a\<close>, with \<open>Inl\<close> for the exception.
\<close>

subsection \<open>Data\<close>

datatype error = KeyError | IndexError | TypeError | AttributeError | ValueError | ServiceError

text \<open>The object under \<^verbatim>\<open>"flavor"\<close>, of an update and of a version alike.\<close>

record flavor_obj =
  flavor_name :: "string option"

text \<open>The object under \<^verbatim>\<open>"state"\<close> of an update.\<close>

record lifecycle_state =
  current :: "string option"
  current_entered :: "string option"

text \<open>
  One element of the answer of \<^verbatim>\<open>get_offering_updates\<close>. The fields are the keys
  \<^verbatim>\<open>"version"\<close>, \<^verbatim>\<open>"version_locator"\<close>, \<^verbatim>\<open>"flavor"\<close>, \<^verbatim>\<open>"can_update"\<close> and
  \<^verbatim>\<open>"state"\<close>; the first two carry a prefix here because the stack member and the
  version have keys of the same name.
\<close>

record version_update =
  update_version :: "string option"
  update_version_locator :: "string option"
  flavor :: "flavor_obj option"
  can_update :: "bool option"
  state :: "lifecycle_state option"

text \<open>
  The answer of \<^verbatim>\<open>get_version\<close>: an offering with its \<^verbatim>\<open>"kinds"\<close>, each kind with its
  \<^verbatim>\<open>"versions"\<close>. The key \<^verbatim>\<open>"id"\<close> is \<open>offering_id\<close> here (\<open>id\<close> is HOL's identity), and
  the \<^verbatim>\<open>"flavor"\<close> of a version is \<open>version_flavor\<close>.
\<close>

record version_entry =
  version :: "string option"
  version_flavor :: "flavor_obj option"

record kind_entry =
  format_kind :: "string option"
  versions :: "version_entry list option"

record offering_version =
  offering_id :: "string option"
  kinds :: "kind_entry list option"

text \<open>
  The value under \<^verbatim>\<open>"version_locator"\<close> of a stack member. The script itself stores
  \<^verbatim>\<open>latest_version.get("version_locator")\<close> there, which is \<^verbatim>\<open>None\<close> when the update has
  no such key, so the value is a string or \<^verbatim>\<open>None\<close>.
\<close>

datatype pyval = PyNone | PyStr string

text \<open>
  A member of \<^verbatim>\<open>stack["members"]\<close>. The script reads and writes \<^verbatim>\<open>"name"\<close> and
  \<^verbatim>\<open>"version_locator"\<close> only; \<open>other_fields\<close> holds every other key of the object.
\<close>

record stack_member =
  name :: "string option"
  version_locator :: "pyval option"
  other_fields :: "(string \<times> string) list"

text \<open>
  The catalog service as the script sees it. \<open>client\<close> is the exception raised by
  \<^verbatim>\<open>IAMAuthenticator(api_key)\<close> or \<^verbatim>\<open>CatalogManagementV1(...)\<close>, if any: both functions
  build them before their \<^verbatim>\<open>try\<close>. The other two fields are the outcomes of
  \<^verbatim>\<open>service.get_version(version_loc_id=...).get_result()\<close> and of
  \<^verbatim>\<open>service.get_offering_updates(catalog_identifier=..., offering_id=..., kind=...,
  x_auth_refresh_token=...).get_result()\<close>, the answer or the exception raised. The offering
  id and the kind are read with \<^verbatim>\<open>.get\<close> and may be absent.
\<close>

record catalog =
  client :: "error option"
  service_get_version :: "string \<Rightarrow> error + offering_version"
  service_get_offering_updates ::
    "string \<Rightarrow> string option \<Rightarrow> string option \<Rightarrow> error + version_update list"

text \<open>The entries of the list \<^verbatim>\<open>failures\<close>, one constructor for each message.\<close>

datatype failure =
    Failed_to_get_version string string
  | Failed_to_get_version_updates "string option"
  | Failed_to_get_latest_valid_version "version_update list"
  | Error_updating_member string error

text \<open>The two variables the loop over the members updates.\<close>

record run_state =
  updates_made :: bool
  failures :: "failure list"

subsection \<open>\<^verbatim>\<open>get_version\<close>\<close>

text \<open>
  \<^verbatim>\<open>get_version\<close>: an exception of the service call is logged and \<^verbatim>\<open>None\<close> returned; an
  exception while building the client is not caught here.
\<close>

definition get_version :: "catalog \<Rightarrow> string \<Rightarrow> error + offering_version option" where
  "get_version cat locator_id =
     (case client cat of
        Some e \<Rightarrow> Inl e
      | None \<Rightarrow>
          Inr (case service_get_version cat locator_id of Inl e \<Rightarrow> None | Inr v \<Rightarrow> Some v))"

subsection \<open>\<^verbatim>\<open>get_version_updates\<close>\<close>

text \<open>
  The list comprehension of \<^verbatim>\<open>get_version_updates\<close>:
  \<^verbatim>\<open>[update for update in response
      if "flavor" in update.keys() and update["flavor"]["name"] == flavor]\<close>
  An update without the key \<^verbatim>\<open>"flavor"\<close> is dropped by the first conjunct; an update
  whose flavor object has no \<^verbatim>\<open>"name"\<close> raises \<^verbatim>\<open>KeyError\<close>, which ends the comprehension.
  The requested flavor is what the caller read with \<^verbatim>\<open>.get("name")\<close>, so it may be
  Python's \<^verbatim>\<open>None\<close>, which no name equals.
\<close>

fun filter_flavor :: "string option \<Rightarrow> version_update list \<Rightarrow> error + version_update list" where
  "filter_flavor fl [] = Inr []"
| "filter_flavor fl (u # us) =
     (case flavor u of
        None \<Rightarrow> filter_flavor fl us
      | Some f \<Rightarrow>
          (case flavor_name f of
             None \<Rightarrow> Inl KeyError
           | Some n \<Rightarrow>
               (case filter_flavor fl us of
                  Inl e \<Rightarrow> Inl e
                | Inr r \<Rightarrow> Inr (if Some n = fl then u # r else r))))"

text \<open>
  \<^verbatim>\<open>get_version_updates(offeringId, catalogId, kind, flavor, api_key)\<close>. The client and
  the tokens are obtained before the \<^verbatim>\<open>try\<close> (\<^verbatim>\<open>get_tokens\<close> catches every exception
  itself). Inside it, both handlers (\<^verbatim>\<open>except KeyError\<close>, \<^verbatim>\<open>except Exception\<close>) log and
  return \<^verbatim>\<open>None\<close>.
\<close>

definition get_version_updates ::
  "catalog \<Rightarrow> string option \<Rightarrow> string \<Rightarrow> string option \<Rightarrow> string option \<Rightarrow>
   error + version_update list option" where
  "get_version_updates cat offeringId catalogId kind fl =
     (case client cat of
        Some e \<Rightarrow> Inl e
      | None \<Rightarrow>
          Inr (case service_get_offering_updates cat catalogId offeringId kind of
                 Inl e \<Rightarrow> None
               | Inr response \<Rightarrow>
                   (case filter_flavor fl response of Inl e \<Rightarrow> None | Inr r \<Rightarrow> Some r)))"

text \<open>
  The two ways an update can fail the filter: its flavor object has no name (the
  comprehension raises), or it has no flavor or another name (the update is dropped).
\<close>

definition flavor_nameless :: "version_update \<Rightarrow> bool" where
  "flavor_nameless u \<longleftrightarrow> (case flavor u of None \<Rightarrow> False | Some f \<Rightarrow> flavor_name f = None)"

definition flavor_matches :: "string option \<Rightarrow> version_update \<Rightarrow> bool" where
  "flavor_matches fl u \<longleftrightarrow>
     (case flavor u of
        None \<Rightarrow> False
      | Some f \<Rightarrow> (case flavor_name f of None \<Rightarrow> False | Some n \<Rightarrow> Some n = fl))"

subsection \<open>\<^verbatim>\<open>get_latest_valid_version\<close>\<close>

text \<open>The sort key \<^verbatim>\<open>lambda x: x["state"]["current_entered"]\<close>.\<close>

definition sort_key_of :: "version_update \<Rightarrow> error + string" where
  "sort_key_of u =
     (case state u of
        None \<Rightarrow> Inl KeyError
      | Some s \<Rightarrow> (case current_entered s of None \<Rightarrow> Inl KeyError | Some t \<Rightarrow> Inr t))"

text \<open>
  \<^verbatim>\<open>sorted\<close> first applies the key to every element, in list order, and only then
  compares the keys: the first element whose key raises ends the call.
\<close>

fun decorate :: "version_update list \<Rightarrow> error + (string \<times> version_update) list" where
  "decorate [] = Inr []"
| "decorate (u # us) =
     (case sort_key_of u of
        Inl e \<Rightarrow> Inl e
      | Inr k \<Rightarrow> (case decorate us of Inl e \<Rightarrow> Inl e | Inr r \<Rightarrow> Inr ((k, u) # r)))"

text \<open>
  \<^verbatim>\<open>sorted(updates, key=..., reverse=True)\<close>. Python's sort is stable, and with
  \<^verbatim>\<open>reverse=True\<close> it stays so: the list is reversed, sorted in ascending order and
  reversed again, so elements with equal keys keep the order of the input.
  \<^const>\<open>sort_key\<close> is a stable ascending sort.
\<close>

definition sorted_reverse :: "version_update list \<Rightarrow> error + version_update list" where
  "sorted_reverse us =
     (case decorate us of
        Inl e \<Rightarrow> Inl e
      | Inr kus \<Rightarrow> Inr (map snd (rev (sort_key fst (rev kus)))))"

text \<open>
  The loop over the sorted updates:
  \<^verbatim>\<open>if update["can_update"] and update["state"]["current"] == "consumable": return update\<close>
  The second conjunct is evaluated only when the first is true.
\<close>

fun first_valid :: "version_update list \<Rightarrow> error + version_update option" where
  "first_valid [] = Inr None"
| "first_valid (u # us) =
     (case can_update u of
        None \<Rightarrow> Inl KeyError
      | Some False \<Rightarrow> first_valid us
      | Some True \<Rightarrow>
          (case state u of
             None \<Rightarrow> Inl KeyError
           | Some s \<Rightarrow>
               (case current s of
                  None \<Rightarrow> Inl KeyError
                | Some c \<Rightarrow> if c = ''consumable'' then Inr (Some u) else first_valid us)))"

text \<open>The body of the \<^verbatim>\<open>try\<close> block of \<^verbatim>\<open>get_latest_valid_version\<close>.\<close>

definition latest_valid_body :: "version_update list \<Rightarrow> error + version_update option" where
  "latest_valid_body us =
     (case sorted_reverse us of Inl e \<Rightarrow> Inl e | Inr sorted_us \<Rightarrow> first_valid sorted_us)"

text \<open>\<^verbatim>\<open>get_latest_valid_version\<close>: any exception is logged and \<^verbatim>\<open>None\<close> returned.\<close>

definition get_latest_valid_version :: "version_update list \<Rightarrow> version_update option" where
  "get_latest_valid_version us = (case latest_valid_body us of Inl e \<Rightarrow> None | Inr r \<Rightarrow> r)"

text \<open>
  The condition of the loop as a predicate: the update carries \<^verbatim>\<open>can_update\<close> true and a
  state whose \<^verbatim>\<open>current\<close> is \<^verbatim>\<open>"consumable"\<close>.
\<close>

definition valid_update :: "version_update \<Rightarrow> bool" where
  "valid_update u \<longleftrightarrow>
     can_update u = Some True \<and>
     (case state u of None \<Rightarrow> False | Some s \<Rightarrow> current s = Some ''consumable'')"

text \<open>
  An update on which neither the key function nor the condition of the loop raises: it
  carries \<^verbatim>\<open>can_update\<close> and \<^verbatim>\<open>state.current_entered\<close>, and \<^verbatim>\<open>state.current\<close> as well
  when \<^verbatim>\<open>can_update\<close> is true.
\<close>

definition carries_fields :: "version_update \<Rightarrow> bool" where
  "carries_fields u \<longleftrightarrow>
     can_update u \<noteq> None \<and>
     (case state u of
        None \<Rightarrow> False
      | Some s \<Rightarrow> current_entered s \<noteq> None \<and> (can_update u = Some True \<longrightarrow> current s \<noteq> None))"

text \<open>An update without \<^verbatim>\<open>state\<close>, or whose state has no \<^verbatim>\<open>current_entered\<close>.\<close>

definition lacks_entered :: "version_update \<Rightarrow> bool" where
  "lacks_entered u \<longleftrightarrow>
     (case state u of None \<Rightarrow> True | Some s \<Rightarrow> current_entered s = None)"

text \<open>Both updates carry \<^verbatim>\<open>state.current_entered\<close>, and the first is not after the second.\<close>

definition entered_le :: "version_update \<Rightarrow> version_update \<Rightarrow> bool" where
  "entered_le u v \<longleftrightarrow>
     (case (sort_key_of u, sort_key_of v) of (Inr a, Inr b) \<Rightarrow> a \<le> b | _ \<Rightarrow> False)"

text \<open>The key of an update that carries one (the empty string otherwise).\<close>

definition key_or_empty :: "version_update \<Rightarrow> string" where
  "key_or_empty u = (case sort_key_of u of Inl e \<Rightarrow> [] | Inr k \<Rightarrow> k)"

subsection \<open>The loop over the members\<close>

text \<open>
  \<^verbatim>\<open>s.split(".")\<close>: the pieces of \<open>s\<close> between the separators, one more than there are
  separators; a piece may be empty.
\<close>

fun split_on :: "char \<Rightarrow> string \<Rightarrow> string list" where
  "split_on c [] = [[]]"
| "split_on c (x # xs) =
     (if x = c then [] # split_on c xs
      else (case split_on c xs of [] \<Rightarrow> [[x]] | p # ps \<Rightarrow> (x # p) # ps))"

text \<open>
  \<^verbatim>\<open>catalogId, versionId = version_locator.split(".")\<close>: unpacking any number of pieces
  other than two raises \<^verbatim>\<open>ValueError\<close>.
\<close>

definition split_locator :: "string \<Rightarrow> error + string \<times> string" where
  "split_locator s =
     (case split_on CHR ''.'' s of
        [catalogId, versionId] \<Rightarrow> Inr (catalogId, versionId)
      | _ \<Rightarrow> Inl ValueError)"

text \<open>
  \<^verbatim>\<open>version.get("kinds", [])[0].get("versions")[0]\<close>, which the script evaluates first
  for the debug message (an f-string is evaluated whatever the log level): the first
  kind and its first version. An empty list raises \<^verbatim>\<open>IndexError\<close>, an absent
  \<^verbatim>\<open>"versions"\<close> gives \<^verbatim>\<open>None\<close>, whose subscript raises \<^verbatim>\<open>TypeError\<close>.
\<close>

definition first_version :: "offering_version \<Rightarrow> error + kind_entry \<times> version_entry" where
  "first_version v =
     (case (case kinds v of None \<Rightarrow> [] | Some ks \<Rightarrow> ks) of
        [] \<Rightarrow> Inl IndexError
      | k # _ \<Rightarrow>
          (case versions k of
             None \<Rightarrow> Inl TypeError
           | Some [] \<Rightarrow> Inl IndexError
           | Some (e # _) \<Rightarrow> Inr (k, e)))"

text \<open>
  What the loop reads from the version: \<^verbatim>\<open>kind\<close>, \<^verbatim>\<open>flavor\<close> and \<^verbatim>\<open>offeringId\<close>.
  \<^verbatim>\<open>.get("flavor").get("name")\<close> raises \<^verbatim>\<open>AttributeError\<close> when the version has no flavor.
  An absent \<^verbatim>\<open>"id"\<close> gives the default \<^verbatim>\<open>{}\<close>, which is \<open>None\<close> here.
\<close>

definition version_descriptor ::
  "offering_version \<Rightarrow> error + string option \<times> string option \<times> string option" where
  "version_descriptor v =
     (case first_version v of
        Inl e \<Rightarrow> Inl e
      | Inr (k, e) \<Rightarrow>
          (case version_flavor e of
             None \<Rightarrow> Inl AttributeError
           | Some f \<Rightarrow> Inr (format_kind k, flavor_name f, offering_id v)))"

text \<open>\<^verbatim>\<open>failures.append(...)\<close> and \<^verbatim>\<open>latest_version.get("version_locator")\<close>.\<close>

definition record_failure :: "failure \<Rightarrow> run_state \<Rightarrow> run_state" where
  "record_failure f st = st\<lparr>failures := failures st @ [f]\<rparr>"

definition get_version_locator :: "version_update \<Rightarrow> pyval" where
  "get_version_locator u = (case update_version_locator u of None \<Rightarrow> PyNone | Some l \<Rightarrow> PyStr l)"

text \<open>
  The body of the \<^verbatim>\<open>try\<close> block of the loop, for one member. \<open>Inl\<close> is an exception
  raised in the block; \<open>Inr\<close> is the member and the variables when the block ends, by
  \<^verbatim>\<open>continue\<close> or at its last statement. \<^verbatim>\<open>None.split\<close> raises \<^verbatim>\<open>AttributeError\<close>. The
  comparison of the version strings only chooses a log message.
\<close>

definition try_update_member ::
  "catalog \<Rightarrow> stack_member \<Rightarrow> run_state \<Rightarrow> error + stack_member \<times> run_state" where
  "try_update_member cat member st =
     (case name member of
        None \<Rightarrow> Inl KeyError
      | Some n \<Rightarrow>
     (case version_locator member of
        None \<Rightarrow> Inl KeyError
      | Some PyNone \<Rightarrow> Inl AttributeError
      | Some (PyStr loc) \<Rightarrow>
     (case split_locator loc of
        Inl e \<Rightarrow> Inl e
      | Inr (catalogId, versionId) \<Rightarrow>
     (case get_version cat loc of
        Inl e \<Rightarrow> Inl e
      | Inr None \<Rightarrow> Inr (member, record_failure (Failed_to_get_version n loc) st)
      | Inr (Some v) \<Rightarrow>
     (case version_descriptor v of
        Inl e \<Rightarrow> Inl e
      | Inr (kind, fl, offeringId) \<Rightarrow>
     (case get_version_updates cat offeringId catalogId kind fl of
        Inl e \<Rightarrow> Inl e
      | Inr None \<Rightarrow> Inr (member, record_failure (Failed_to_get_version_updates offeringId) st)
      | Inr (Some updates) \<Rightarrow>
     (case get_latest_valid_version updates of
        None \<Rightarrow> Inr (member, record_failure (Failed_to_get_latest_valid_version updates) st)
      | Some latest_version \<Rightarrow>
          (if PyStr loc \<noteq> get_version_locator latest_version
           then Inr (member\<lparr>version_locator := Some (get_version_locator latest_version)\<rparr>,
                     st\<lparr>updates_made := True\<rparr>)
           else Inr (member, st)))))))))"

text \<open>
  One iteration of the loop: the \<^verbatim>\<open>try\<close> block and its handler \<^verbatim>\<open>except Exception as e\<close>.
  The handler formats \<^verbatim>\<open>member['name']\<close> into its messages, so it raises
  \<^verbatim>\<open>KeyError\<close> itself when the member has no name, and nothing catches that.
\<close>

definition process_member ::
  "catalog \<Rightarrow> stack_member \<Rightarrow> run_state \<Rightarrow> error + stack_member \<times> run_state" where
  "process_member cat member st =
     (case try_update_member cat member st of
        Inr r \<Rightarrow> Inr r
      | Inl e \<Rightarrow>
          (case name member of
             None \<Rightarrow> Inl KeyError
           | Some n \<Rightarrow> Inr (member, record_failure (Error_updating_member n e) st)))"

text \<open>
  \<^verbatim>\<open>for member in stack["members"]\<close>: the members in order, each with the variables
  the previous one left. An exception that leaves an iteration ends the loop and the
  script.
\<close>

fun update_members ::
  "catalog \<Rightarrow> stack_member list \<Rightarrow> run_state \<Rightarrow> error + stack_member list \<times> run_state" where
  "update_members cat [] st = Inr ([], st)"
| "update_members cat (m # ms) st =
     (case process_member cat m st of
        Inl e \<Rightarrow> Inl e
      | Inr (m', st') \<Rightarrow>
          (case update_members cat ms st' of
             Inl e \<Rightarrow> Inl e
           | Inr (ms', st'') \<Rightarrow> Inr (m' # ms', st'')))"

text \<open>
  The script from the loop on, once the API key and the stack file are there. The result
  is the list of members written back to the file (\<open>None\<close> when the file is not written)
  and the exit status: \<^verbatim>\<open>exit(1)\<close> when \<^verbatim>\<open>failures\<close> is not empty, and \<open>0\<close> at the end of the
  script otherwise. \<open>Inl\<close> is an exception nothing caught.
\<close>

definition main_run ::
  "catalog \<Rightarrow> bool \<Rightarrow> stack_member list \<Rightarrow> error + stack_member list option \<times> nat" where
  "main_run cat dry_run members =
     (case update_members cat members \<lparr>updates_made = False, failures = []\<rparr> of
        Inl e \<Rightarrow> Inl e
      | Inr (members', st) \<Rightarrow>
          Inr (if updates_made st \<and> \<not> dry_run then Some members' else None,
               if failures st \<noteq> [] then 1 else 0))"

subsection \<open>Example data\<close>

text \<open>An update of flavor \<open>standard\<close> and version \<open>1.0.0\<close> with the given fields.\<close>

definition an_update ::
  "string \<Rightarrow> bool option \<Rightarrow> string option \<Rightarrow> string option \<Rightarrow> version_update" where
  "an_update loc can cur ent =
     \<lparr>update_version = Some ''1.0.0'', update_version_locator = Some loc,
      flavor = Some \<lparr>flavor_name = Some ''standard''\<rparr>, can_update = can,
      state = Some \<lparr>current = cur, current_entered = ent\<rparr>\<rparr>"

text \<open>A version \<open>1.0.0\<close> of flavor \<open>standard\<close>, and a catalog that answers every call.\<close>

definition a_version :: offering_version where
  "a_version =
     \<lparr>offering_id = Some ''off1'',
      kinds = Some [\<lparr>format_kind = Some ''terraform'',
                     versions = Some [\<lparr>version = Some ''1.0.0'',
                                       version_flavor = Some \<lparr>flavor_name = Some ''standard''\<rparr>\<rparr>]\<rparr>]\<rparr>"

definition a_catalog :: "version_update list \<Rightarrow> catalog" where
  "a_catalog us =
     \<lparr>client = None,
      service_get_version = (\<lambda>loc. Inr a_version),
      service_get_offering_updates = (\<lambda>catalogId offeringId kind. Inr us)\<rparr>"

definition a_member :: "string option \<Rightarrow> string \<Rightarrow> stack_member" where
  "a_member n loc =
     \<lparr>name = n, version_locator = Some (PyStr loc), other_fields = [(''deps'', ''none'')]\<rparr>"

section \<open>Properties\<close>

subsection \<open>Sorting\<close>

lemma insort_key_decorated:
  "insort_key fst (f x, x) (map (\<lambda>u. (f u, u)) ys) = map (\<lambda>u. (f u, u)) (insort_key f x ys)"
  by (induction ys) simp_all

lemma sort_key_decorated:
  "sort_key fst (map (\<lambda>u. (f u, u)) xs) = map (\<lambda>u. (f u, u)) (sort_key f xs)"
  by (induction xs) (simp_all add: insort_key_decorated)

lemma find_filter_hd: "List.find P xs = (case filter P xs of [] \<Rightarrow> None | y # ys \<Rightarrow> Some y)"
  by (induction xs) simp_all

lemma last_filter_last: "xs \<noteq> [] \<Longrightarrow> P (last xs) \<Longrightarrow> last (filter P xs) = last xs"
proof (induction xs)
  case Nil
  then show ?case by simp
next
  case (Cons x xs)
  show ?case
  proof (cases "xs = []")
    case True
    with Cons.prems show ?thesis by simp
  next
    case False
    with Cons.prems have "P (last xs)" by simp
    moreover from False have "last xs \<in> set xs" by simp
    ultimately have "filter P xs \<noteq> []" by (auto simp: filter_empty_conv)
    with Cons False \<open>P (last xs)\<close> show ?thesis by simp
  qed
qed

lemma sorted_map_le_last:
  fixes f :: "'a \<Rightarrow> 'k::linorder"
  shows "sorted (map f xs) \<Longrightarrow> x \<in> set xs \<Longrightarrow> f x \<le> f (last xs)"
  by (induction xs) auto

text \<open>
  In a list sorted the way \<^verbatim>\<open>sorted(..., reverse=True)\<close> sorts, the first element with a
  property is, among the elements of the input with the property and the greatest key, the
  one that comes first in the input.
\<close>

lemma find_stable_desc:
  fixes f :: "'a \<Rightarrow> 'k::linorder"
  assumes i: "i < length xs" and P: "P (xs ! i)"
    and mx: "\<forall>x\<in>set xs. P x \<longrightarrow> f x \<le> f (xs ! i)"
    and fst: "\<forall>j<i. P (xs ! j) \<longrightarrow> f (xs ! j) \<noteq> f (xs ! i)"
  shows "List.find P (rev (sort_key f (rev xs))) = Some (xs ! i)"
proof -
  let ?ws = "filter P xs"
  let ?S = "sort_key f (rev ?ws)"
  let ?K = "f (xs ! i)"
  have mem: "xs ! i \<in> set ?ws" using i P by simp
  then have ne: "?S \<noteq> []" by (metis empty_iff empty_set set_sort set_rev)
  have flt: "filter P (rev (sort_key f (rev xs))) = rev ?S"
    by (simp add: rev_filter [symmetric] filter_sort)
  have srt: "sorted (map f ?S)" by simp
  have lastS: "last ?S \<in> set ?ws" using ne by (metis last_in_set set_sort set_rev)
  have "xs ! i \<in> set ?S" using mem by simp
  then have "f (xs ! i) \<le> f (last ?S)" using srt by (rule sorted_map_le_last [rotated])
  moreover have "f (last ?S) \<le> ?K" using lastS mx by simp
  ultimately have K: "f (last ?S) = ?K" by simp
  have "last ?S = last (filter (\<lambda>y. f y = ?K) ?S)"
    using K ne by (simp add: last_filter_last)
  also have "\<dots> = last (rev (filter (\<lambda>y. f y = ?K) ?ws))"
    by (simp add: sort_key_stable rev_filter)
  also have "\<dots> = hd (filter (\<lambda>y. P y \<and> f y = ?K) xs)"
    by (simp add: last_rev)
  also have "\<dots> = xs ! i"
  proof -
    have "List.find (\<lambda>y. P y \<and> f y = ?K) xs = Some (xs ! i)"
      unfolding find_Some_iff using i P fst by auto
    then show ?thesis by (simp add: find_filter_hd split: list.splits)
  qed
  finally have "hd (rev ?S) = xs ! i" using ne by (simp add: hd_rev)
  moreover have "rev ?S \<noteq> []" using ne by simp
  ultimately show ?thesis unfolding find_filter_hd flt by (cases "rev ?S") simp_all
qed

subsection \<open>The steps of \<^verbatim>\<open>get_latest_valid_version\<close>\<close>

lemma sort_key_of_lacks: "lacks_entered u \<Longrightarrow> sort_key_of u = Inl KeyError"
  by (auto simp: lacks_entered_def sort_key_of_def split: option.splits)

lemma sort_key_of_Inl: "sort_key_of u = Inl e \<Longrightarrow> e = KeyError"
  by (auto simp: sort_key_of_def split: option.splits)

lemma sort_key_of_carries: "carries_fields u \<Longrightarrow> sort_key_of u = Inr (key_or_empty u)"
  by (auto simp: carries_fields_def sort_key_of_def key_or_empty_def split: option.splits)

lemma decorate_lacks: "\<exists>u\<in>set us. lacks_entered u \<Longrightarrow> decorate us = Inl KeyError"
proof (induction us)
  case Nil
  then show ?case by simp
next
  case (Cons u us)
  show ?case
  proof (cases "lacks_entered u")
    case True
    then show ?thesis by (simp add: sort_key_of_lacks)
  next
    case False
    with Cons.prems have "\<exists>v\<in>set us. lacks_entered v" by simp
    then have "decorate us = Inl KeyError" by (rule Cons.IH)
    then show ?thesis by (auto split: sum.splits dest: sort_key_of_Inl)
  qed
qed

lemma decorate_carries:
  "\<forall>u\<in>set us. carries_fields u \<Longrightarrow> decorate us = Inr (map (\<lambda>u. (key_or_empty u, u)) us)"
  by (induction us) (simp_all add: sort_key_of_carries)

lemma decorate_snd: "decorate us = Inr kus \<Longrightarrow> map snd kus = us"
  by (induction us arbitrary: kus) (auto split: sum.splits)

lemma sorted_reverse_set: "sorted_reverse us = Inr ys \<Longrightarrow> set ys = set us"
proof -
  assume a: "sorted_reverse us = Inr ys"
  then obtain kus where k: "decorate us = Inr kus"
    and ys: "ys = map snd (rev (sort_key fst (rev kus)))"
    by (auto simp: sorted_reverse_def split: sum.splits)
  have "set ys = snd ` set kus" unfolding ys by simp
  also have "\<dots> = set (map snd kus)" by simp
  finally show ?thesis using decorate_snd [OF k] by simp
qed

lemma sorted_reverse_carries:
  "\<forall>u\<in>set us. carries_fields u \<Longrightarrow>
   sorted_reverse us = Inr (rev (sort_key key_or_empty (rev us)))"
proof -
  assume a: "\<forall>u\<in>set us. carries_fields u"
  let ?d = "\<lambda>u. (key_or_empty u, u)"
  have "map snd (rev (sort_key fst (rev (map ?d us)))) =
        map snd (rev (sort_key fst (map ?d (rev us))))"
    by (simp only: rev_map)
  also have "\<dots> = map snd (map ?d (rev (sort_key key_or_empty (rev us))))"
    by (simp only: sort_key_decorated rev_map)
  also have "\<dots> = rev (sort_key key_or_empty (rev us))"
    by (simp add: o_def)
  finally show ?thesis
    by (simp add: sorted_reverse_def decorate_carries [OF a])
qed

lemma first_valid_Some: "first_valid ys = Inr (Some r) \<Longrightarrow> r \<in> set ys \<and> valid_update r"
  by (induction ys) (auto simp: valid_update_def split: option.splits bool.splits if_splits)

lemma first_valid_find:
  "\<forall>u\<in>set ys. carries_fields u \<Longrightarrow> first_valid ys = Inr (List.find valid_update ys)"
  by (induction ys) (auto simp: valid_update_def carries_fields_def split: option.splits bool.splits)

lemma latest_valid_sound:
  assumes "get_latest_valid_version us = Some r"
  shows "r \<in> set us \<and> valid_update r"
proof -
  from assms obtain ys where ys: "sorted_reverse us = Inr ys"
    and fv: "first_valid ys = Inr (Some r)"
    by (auto simp: get_latest_valid_version_def latest_valid_body_def split: sum.splits)
  from first_valid_Some [OF fv] sorted_reverse_set [OF ys] show ?thesis by simp
qed

lemma latest_valid_find:
  assumes "\<forall>u\<in>set us. carries_fields u"
  shows "get_latest_valid_version us =
         List.find valid_update (rev (sort_key key_or_empty (rev us)))"
proof -
  have "\<forall>u\<in>set (rev (sort_key key_or_empty (rev us))). carries_fields u"
    using assms by simp
  then show ?thesis
    by (simp add: get_latest_valid_version_def latest_valid_body_def
        sorted_reverse_carries [OF assms] first_valid_find)
qed

lemma entered_le_carries:
  "carries_fields u \<Longrightarrow> carries_fields v \<Longrightarrow>
   entered_le u v \<longleftrightarrow> key_or_empty u \<le> key_or_empty v"
  by (simp add: entered_le_def sort_key_of_carries)

subsection \<open>The latest valid version\<close>

text \<open>
  C1, as stated, fails: every update below carries \<^verbatim>\<open>state.current_entered\<close> and the second
  is valid, but the first, which is sorted before it, has no \<^verbatim>\<open>can_update\<close>; the condition
  of the loop raises \<^verbatim>\<open>KeyError\<close> on it and \<^verbatim>\<open>get_latest_valid_version\<close> returns \<^verbatim>\<open>None\<close>.
\<close>

theorem latest_valid_missing_can_update:
  "\<not> lacks_entered (an_update ''c.v5'' None (Some ''deprecated'') (Some ''2024-05'')) \<and>
   \<not> lacks_entered (an_update ''c.v1'' (Some True) (Some ''consumable'') (Some ''2024-01'')) \<and>
   valid_update (an_update ''c.v1'' (Some True) (Some ''consumable'') (Some ''2024-01'')) \<and>
   get_latest_valid_version
     [an_update ''c.v5'' None (Some ''deprecated'') (Some ''2024-05''),
      an_update ''c.v1'' (Some True) (Some ''consumable'') (Some ''2024-01'')] = None"
  by (simp add: lacks_entered_def valid_update_def get_latest_valid_version_def
      latest_valid_body_def sorted_reverse_def sort_key_of_def an_update_def)

text \<open>
  C1, amended. \<^verbatim>\<open>get_latest_valid_version\<close> never returns an update that is not in the list,
  that is not eligible (\<^verbatim>\<open>can_update\<close>) or that is not consumable. When every update carries
  \<^verbatim>\<open>state.current_entered\<close> and \<^verbatim>\<open>can_update\<close>, every update with \<^verbatim>\<open>can_update\<close> true carries
  \<^verbatim>\<open>state.current\<close>, and at least one update is valid, it returns a valid update whose
  \<^verbatim>\<open>state.current_entered\<close> is greatest among the valid ones.
\<close>

theorem latest_valid_is_latest:
  "(\<forall>r. get_latest_valid_version us = Some r \<longrightarrow> r \<in> set us \<and> valid_update r) \<and>
   ((\<forall>u\<in>set us. carries_fields u) \<and> (\<exists>u\<in>set us. valid_update u) \<longrightarrow>
    (\<exists>r. get_latest_valid_version us = Some r \<and> r \<in> set us \<and> valid_update r \<and>
         (\<forall>u\<in>set us. valid_update u \<longrightarrow> entered_le u r)))"
proof (rule conjI, goal_cases)
  case 1
  show ?case by (blast dest: latest_valid_sound)
next
  case 2
  show ?case
  proof
    assume a: "(\<forall>u\<in>set us. carries_fields u) \<and> (\<exists>u\<in>set us. valid_update u)"
    then have cf: "\<forall>u\<in>set us. carries_fields u" and ex: "\<exists>u\<in>set us. valid_update u"
      by simp_all
    let ?ys = "rev (sort_key key_or_empty (rev us))"
    have glv: "get_latest_valid_version us = List.find valid_update ?ys"
      by (rule latest_valid_find [OF cf])
    from ex have "\<exists>u\<in>set ?ys. valid_update u" by simp
    then obtain r where r: "List.find valid_update ?ys = Some r"
      by (cases "List.find valid_update ?ys") (auto simp: find_None_iff)
    then obtain i where i: "i < length ?ys" and ri: "r = ?ys ! i"
      and vr: "valid_update r" and before: "\<forall>j<i. \<not> valid_update (?ys ! j)"
      unfolding find_Some_iff by blast
    have rin: "r \<in> set us" using i ri by (metis nth_mem set_rev set_sort)
    have srt: "sorted (map key_or_empty (rev ?ys))" by simp
    have mx: "entered_le u r" if u: "u \<in> set us" and vu: "valid_update u" for u
    proof -
      from u have "u \<in> set ?ys" by simp
      then obtain j where j: "j < length ?ys" and uj: "u = ?ys ! j"
        by (metis in_set_conv_nth)
      with vu before have "i \<le> j" by (metis not_le_imp_less)
      have "sorted (rev (map key_or_empty ?ys))"
        using srt by (simp only: rev_map)
      from sorted_rev_nth_mono [OF this \<open>i \<le> j\<close>] i j
      have "key_or_empty (?ys ! j) \<le> key_or_empty (?ys ! i)"
        by simp
      then show ?thesis using cf u rin uj ri by (simp add: entered_le_carries)
    qed
    show "\<exists>r. get_latest_valid_version us = Some r \<and> r \<in> set us \<and> valid_update r \<and>
           (\<forall>u\<in>set us. valid_update u \<longrightarrow> entered_le u r)"
      using glv r rin vr mx by auto
  qed
qed

theorem latest_valid_is_latest_witness:
  "carries_fields (an_update ''c.v1'' (Some True) (Some ''consumable'') (Some ''2024-01'')) \<and>
   carries_fields (an_update ''c.v2'' (Some True) (Some ''consumable'') (Some ''2024-02'')) \<and>
   carries_fields (an_update ''c.v4'' (Some False) (Some ''consumable'') (Some ''2024-03'')) \<and>
   valid_update (an_update ''c.v2'' (Some True) (Some ''consumable'') (Some ''2024-02'')) \<and>
   get_latest_valid_version
     [an_update ''c.v1'' (Some True) (Some ''consumable'') (Some ''2024-01''),
      an_update ''c.v2'' (Some True) (Some ''consumable'') (Some ''2024-02''),
      an_update ''c.v4'' (Some False) (Some ''consumable'') (Some ''2024-03'')]
   = Some (an_update ''c.v2'' (Some True) (Some ''consumable'') (Some ''2024-02''))"
proof -
  let ?us = "[an_update ''c.v1'' (Some True) (Some ''consumable'') (Some ''2024-01''),
              an_update ''c.v2'' (Some True) (Some ''consumable'') (Some ''2024-02''),
              an_update ''c.v4'' (Some False) (Some ''consumable'') (Some ''2024-03'')]"
  have cf: "\<forall>u\<in>set ?us. carries_fields u"
    by (auto simp: carries_fields_def an_update_def)
  have ex: "\<exists>u\<in>set ?us. valid_update u"
    by (simp add: valid_update_def an_update_def)
  from latest_valid_is_latest [of ?us] cf ex
  obtain r where r: "get_latest_valid_version ?us = Some r" and v: "valid_update r"
    and mx: "\<forall>u\<in>set ?us. valid_update u \<longrightarrow> entered_le u r"
    by blast
  have "r = an_update ''c.v2'' (Some True) (Some ''consumable'') (Some ''2024-02'')"
  proof -
    from latest_valid_is_latest [of ?us] r have "r \<in> set ?us" by blast
    moreover have "\<not> valid_update (an_update ''c.v4'' (Some False) (Some ''consumable'') (Some ''2024-03''))"
      by (simp add: valid_update_def an_update_def)
    moreover have "valid_update (an_update ''c.v2'' (Some True) (Some ''consumable'') (Some ''2024-02''))"
      by (simp add: valid_update_def an_update_def)
    moreover have "\<not> entered_le (an_update ''c.v2'' (Some True) (Some ''consumable'') (Some ''2024-02''))
                     (an_update ''c.v1'' (Some True) (Some ''consumable'') (Some ''2024-01''))"
      by (simp add: entered_le_def sort_key_of_def an_update_def)
    ultimately show ?thesis using v mx by auto
  qed
  with r cf show ?thesis by (simp add: valid_update_def an_update_def)
qed

text \<open>
  C5. When no update of the list is both eligible (\<^verbatim>\<open>can_update\<close> true) and consumable,
  \<^verbatim>\<open>get_latest_valid_version\<close> returns \<^verbatim>\<open>None\<close>; the empty list is such a list.
\<close>

theorem latest_valid_none:
  "\<forall>u\<in>set us. \<not> valid_update u \<Longrightarrow> get_latest_valid_version us = None"
proof (cases "get_latest_valid_version us")
  case None
  then show ?thesis .
next
  case (Some r)
  assume "\<forall>u\<in>set us. \<not> valid_update u"
  with latest_valid_sound [OF Some] show ?thesis by blast
qed

theorem latest_valid_none_witness:
  "\<not> valid_update (an_update ''c.v4'' (Some False) (Some ''consumable'') (Some ''2024-03'')) \<and>
   \<not> valid_update (an_update ''c.v6'' (Some True) (Some ''deprecated'') (Some ''2024-06'')) \<and>
   get_latest_valid_version
     [an_update ''c.v4'' (Some False) (Some ''consumable'') (Some ''2024-03''),
      an_update ''c.v6'' (Some True) (Some ''deprecated'') (Some ''2024-06'')] = None \<and>
   get_latest_valid_version [] = None"
proof -
  have h: "\<forall>u\<in>set [an_update ''c.v4'' (Some False) (Some ''consumable'') (Some ''2024-03''),
                     an_update ''c.v6'' (Some True) (Some ''deprecated'') (Some ''2024-06'')]. \<not> valid_update u"
    by (simp add: valid_update_def an_update_def)
  have e: "\<forall>u\<in>set []. \<not> valid_update u" by simp
  show ?thesis using h latest_valid_none [OF h] latest_valid_none [OF e] by simp
qed

text \<open>
  C6. When some update of the list has no \<^verbatim>\<open>state\<close>, or a state without
  \<^verbatim>\<open>current_entered\<close>, the sort raises \<^verbatim>\<open>KeyError\<close> before any update is looked at, and
  \<^verbatim>\<open>get_latest_valid_version\<close> returns \<^verbatim>\<open>None\<close>: no update of the list is selected.
\<close>

theorem latest_valid_fails_closed:
  "\<exists>u\<in>set us. lacks_entered u \<Longrightarrow>
   latest_valid_body us = Inl KeyError \<and> get_latest_valid_version us = None"
  by (simp add: get_latest_valid_version_def latest_valid_body_def sorted_reverse_def
      decorate_lacks)

theorem latest_valid_fails_closed_witness:
  "lacks_entered (an_update ''c.v7'' (Some True) (Some ''consumable'') None) \<and>
   latest_valid_body
     [an_update ''c.v1'' (Some True) (Some ''consumable'') (Some ''2024-01''),
      an_update ''c.v7'' (Some True) (Some ''consumable'') None] = Inl KeyError \<and>
   get_latest_valid_version
     [an_update ''c.v1'' (Some True) (Some ''consumable'') (Some ''2024-01''),
      an_update ''c.v7'' (Some True) (Some ''consumable'') None] = None"
proof -
  have h: "\<exists>u\<in>set [an_update ''c.v1'' (Some True) (Some ''consumable'') (Some ''2024-01''),
                     an_update ''c.v7'' (Some True) (Some ''consumable'') None]. lacks_entered u"
    by (simp add: lacks_entered_def an_update_def)
  show ?thesis using latest_valid_fails_closed [OF h]
    by (simp add: lacks_entered_def an_update_def)
qed

text \<open>
  C10, as stated, fails: the first two updates below are valid and share the greatest
  \<^verbatim>\<open>state.current_entered\<close>, but the third, which is not valid, has none, so the sort raises and
  \<^verbatim>\<open>None\<close> is returned instead of the first.
\<close>

theorem latest_valid_tie_missing_entered:
  "valid_update (an_update ''c.v2'' (Some True) (Some ''consumable'') (Some ''2024-02'')) \<and>
   valid_update (an_update ''c.v3'' (Some True) (Some ''consumable'') (Some ''2024-02'')) \<and>
   sort_key_of (an_update ''c.v2'' (Some True) (Some ''consumable'') (Some ''2024-02'')) =
   sort_key_of (an_update ''c.v3'' (Some True) (Some ''consumable'') (Some ''2024-02'')) \<and>
   get_latest_valid_version
     [an_update ''c.v2'' (Some True) (Some ''consumable'') (Some ''2024-02''),
      an_update ''c.v3'' (Some True) (Some ''consumable'') (Some ''2024-02''),
      an_update ''c.v8'' (Some False) (Some ''deprecated'') None] = None"
  by (simp add: valid_update_def get_latest_valid_version_def latest_valid_body_def
      sorted_reverse_def sort_key_of_def an_update_def)

text \<open>
  C10, amended. When every update carries \<^verbatim>\<open>state.current_entered\<close> and \<^verbatim>\<open>can_update\<close>, and
  every update with \<^verbatim>\<open>can_update\<close> true carries \<^verbatim>\<open>state.current\<close>, then
  \<^verbatim>\<open>get_latest_valid_version\<close> returns, among the valid updates with the greatest
  \<^verbatim>\<open>state.current_entered\<close>, the one that comes first in the list: the update at position
  \<open>i\<close>, when it is valid, no valid update is later than it, and no valid update before
  position \<open>i\<close> has the same \<^verbatim>\<open>state.current_entered\<close>.
\<close>

theorem latest_valid_first_of_ties:
  assumes cf: "\<forall>u\<in>set us. carries_fields u"
    and i: "i < length us" and v: "valid_update (us ! i)"
    and mx: "\<forall>u\<in>set us. valid_update u \<longrightarrow> entered_le u (us ! i)"
    and first: "\<forall>j<i. valid_update (us ! j) \<longrightarrow> sort_key_of (us ! j) \<noteq> sort_key_of (us ! i)"
  shows "get_latest_valid_version us = Some (us ! i)"
proof -
  have ci: "carries_fields (us ! i)" using cf i by simp
  have mx': "\<forall>u\<in>set us. valid_update u \<longrightarrow> key_or_empty u \<le> key_or_empty (us ! i)"
    using mx cf ci by (simp add: entered_le_carries)
  have first': "\<forall>j<i. valid_update (us ! j) \<longrightarrow> key_or_empty (us ! j) \<noteq> key_or_empty (us ! i)"
  proof (intro allI impI)
    fix j assume j: "j < i" and vj: "valid_update (us ! j)"
    with i cf have "carries_fields (us ! j)" by simp
    with first j vj ci show "key_or_empty (us ! j) \<noteq> key_or_empty (us ! i)"
      by (auto simp: sort_key_of_carries)
  qed
  show ?thesis
    unfolding latest_valid_find [OF cf]
    by (rule find_stable_desc [OF i v mx' first'])
qed

theorem latest_valid_first_of_ties_witness:
  "get_latest_valid_version
     [an_update ''c.v1'' (Some True) (Some ''consumable'') (Some ''2024-01''),
      an_update ''c.v2'' (Some True) (Some ''consumable'') (Some ''2024-02''),
      an_update ''c.v3'' (Some True) (Some ''consumable'') (Some ''2024-02''),
      an_update ''c.v4'' (Some False) (Some ''consumable'') (Some ''2024-03'')]
   = Some (an_update ''c.v2'' (Some True) (Some ''consumable'') (Some ''2024-02''))"
proof -
  let ?us = "[an_update ''c.v1'' (Some True) (Some ''consumable'') (Some ''2024-01''),
              an_update ''c.v2'' (Some True) (Some ''consumable'') (Some ''2024-02''),
              an_update ''c.v3'' (Some True) (Some ''consumable'') (Some ''2024-02''),
              an_update ''c.v4'' (Some False) (Some ''consumable'') (Some ''2024-03'')]"
  have cf: "\<forall>u\<in>set ?us. carries_fields u"
    by (auto simp: carries_fields_def an_update_def)
  have i: "Suc 0 < length ?us" by simp
  have v: "valid_update (?us ! Suc 0)" by (simp add: valid_update_def an_update_def)
  have mx: "\<forall>u\<in>set ?us. valid_update u \<longrightarrow> entered_le u (?us ! Suc 0)"
    by (simp add: valid_update_def entered_le_def sort_key_of_def an_update_def)
  have first: "\<forall>j<Suc 0. valid_update (?us ! j) \<longrightarrow>
                 sort_key_of (?us ! j) \<noteq> sort_key_of (?us ! Suc 0)"
    by (simp add: sort_key_of_def an_update_def)
  show ?thesis using latest_valid_first_of_ties [OF cf i v mx first] by simp
qed

subsection \<open>The updates of one flavor\<close>

lemma filter_flavor_eq:
  "filter_flavor fl us =
     (if \<exists>u\<in>set us. flavor_nameless u then Inl KeyError
      else Inr (filter (flavor_matches fl) us))"
proof (induction us)
  case Nil
  then show ?case by simp
next
  case (Cons u us)
  show ?case
  proof (cases "flavor u")
    case None
    then have "\<not> flavor_nameless u" "\<not> flavor_matches fl u"
      by (simp_all add: flavor_nameless_def flavor_matches_def)
    with None Cons show ?thesis by simp
  next
    case (Some f)
    show ?thesis
    proof (cases "flavor_name f")
      case None
      with Some have "flavor_nameless u" by (simp add: flavor_nameless_def)
      with Some None show ?thesis by simp
    next
      case (Some n)
      with \<open>flavor u = Some f\<close>
      have "\<not> flavor_nameless u" "flavor_matches fl u \<longleftrightarrow> Some n = fl"
        by (simp_all add: flavor_nameless_def flavor_matches_def)
      with Some \<open>flavor u = Some f\<close> Cons show ?thesis by simp
    qed
  qed
qed

text \<open>
  C8, as stated, fails: the second update below has the requested flavor, but the first has
  a flavor object without \<^verbatim>\<open>name\<close>; the comprehension raises \<^verbatim>\<open>KeyError\<close> and the handler
  \<^verbatim>\<open>except KeyError\<close> makes the whole call return \<^verbatim>\<open>None\<close>.
\<close>

theorem flavor_filter_nameless_fails:
  "flavor_matches (Some ''standard'')
     (an_update ''c.v1'' (Some True) (Some ''consumable'') (Some ''2024-01'')) \<and>
   get_version_updates
     (a_catalog
        [(an_update ''c.v2'' (Some True) (Some ''consumable'') (Some ''2024-02''))
           \<lparr>flavor := Some \<lparr>flavor_name = None\<rparr>\<rparr>,
         an_update ''c.v1'' (Some True) (Some ''consumable'') (Some ''2024-01'')])
     (Some ''off1'') ''c'' (Some ''terraform'') (Some ''standard'') = Inr None"
  by (simp add: flavor_matches_def get_version_updates_def a_catalog_def an_update_def)

text \<open>
  C8, amended. For every answer of the update-listing call in which every update that has
  a \<^verbatim>\<open>flavor\<close> has a \<^verbatim>\<open>name\<close> in it, \<^verbatim>\<open>get_version_updates\<close> returns exactly the updates
  whose flavor name equals the requested flavor, in the order of the answer; an update
  without \<^verbatim>\<open>flavor\<close> or with another name is left out. When some update has a flavor without
  a name, the call returns \<^verbatim>\<open>None\<close>.
\<close>

theorem flavor_filter_exact:
  assumes "client cat = None"
    and "service_get_offering_updates cat catalogId offeringId kind = Inr response"
  shows "get_version_updates cat offeringId catalogId kind fl =
         Inr (if \<exists>u\<in>set response. flavor_nameless u then None
              else Some (filter (flavor_matches fl) response))"
  using assms by (simp add: get_version_updates_def filter_flavor_eq)

theorem flavor_filter_exact_witness:
  "get_version_updates
     (a_catalog
        [an_update ''c.v1'' (Some True) (Some ''consumable'') (Some ''2024-01''),
         (an_update ''c.v2'' (Some True) (Some ''consumable'') (Some ''2024-02''))
           \<lparr>flavor := Some \<lparr>flavor_name = Some ''quickstart''\<rparr>\<rparr>,
         (an_update ''c.v3'' (Some True) (Some ''consumable'') (Some ''2024-03''))
           \<lparr>flavor := None\<rparr>])
     (Some ''off1'') ''c'' (Some ''terraform'') (Some ''standard'')
   = Inr (Some [an_update ''c.v1'' (Some True) (Some ''consumable'') (Some ''2024-01'')])"
proof -
  let ?r = "[an_update ''c.v1'' (Some True) (Some ''consumable'') (Some ''2024-01''),
         (an_update ''c.v2'' (Some True) (Some ''consumable'') (Some ''2024-02''))
           \<lparr>flavor := Some \<lparr>flavor_name = Some ''quickstart''\<rparr>\<rparr>,
         (an_update ''c.v3'' (Some True) (Some ''consumable'') (Some ''2024-03''))
           \<lparr>flavor := None\<rparr>]"
  have c: "client (a_catalog ?r) = None" by (simp add: a_catalog_def)
  have s: "service_get_offering_updates (a_catalog ?r) ''c'' (Some ''off1'') (Some ''terraform'') = Inr ?r"
    by (simp add: a_catalog_def)
  show ?thesis
    using flavor_filter_exact [OF c s, of "Some ''standard''"]
    by (simp add: flavor_nameless_def flavor_matches_def an_update_def)
qed

subsection \<open>Splitting the locator\<close>

lemma split_on_not_Nil: "split_on c s \<noteq> []"
  by (induction s) (auto split: list.splits)

lemma split_on_length: "length (split_on c s) = Suc (count_list s c)"
  by (induction s) (auto split: list.splits simp: split_on_not_Nil)

lemma split_on_no_sep: "p \<in> set (split_on c s) \<Longrightarrow> c \<notin> set p"
  by (induction s arbitrary: p) (auto split: list.splits if_splits)

lemma split_on_join: "split_on c s = p # ps \<Longrightarrow> s = p @ concat (map (\<lambda>q. c # q) ps)"
  by (induction s arbitrary: p ps) (auto split: list.splits if_splits simp: split_on_not_Nil)

lemma split_on_whole: "c \<notin> set a \<Longrightarrow> split_on c a = [a]"
  by (induction a) auto

lemma split_on_append: "c \<notin> set a \<Longrightarrow> split_on c (a @ c # b) = a # split_on c b"
  by (induction a) auto

lemma split_locator_Inl: "split_locator s = Inl e \<Longrightarrow> e = ValueError"
  by (auto simp: split_locator_def split: list.splits)

lemma split_locator_Inr_iff:
  "split_locator s = Inr (a, b) \<longleftrightarrow> s = a @ CHR ''.'' # b \<and> CHR ''.'' \<notin> set a \<and> CHR ''.'' \<notin> set b"
proof
  assume "split_locator s = Inr (a, b)"
  then have sp: "split_on CHR ''.'' s = [a, b]"
    by (auto simp: split_locator_def split: list.splits)
  from split_on_join [OF sp] have "s = a @ CHR ''.'' # b" by simp
  moreover have "CHR ''.'' \<notin> set a" by (rule split_on_no_sep [of a _ s]) (simp add: sp)
  moreover have "CHR ''.'' \<notin> set b" by (rule split_on_no_sep [of b _ s]) (simp add: sp)
  ultimately show "s = a @ CHR ''.'' # b \<and> CHR ''.'' \<notin> set a \<and> CHR ''.'' \<notin> set b" by simp
next
  assume "s = a @ CHR ''.'' # b \<and> CHR ''.'' \<notin> set a \<and> CHR ''.'' \<notin> set b"
  then show "split_locator s = Inr (a, b)"
    by (simp add: split_locator_def split_on_append split_on_whole)
qed

lemma split_locator_count:
  "count_list s CHR ''.'' \<noteq> 1 \<Longrightarrow> split_locator s = Inl ValueError"
proof -
  assume a: "count_list s CHR ''.'' \<noteq> 1"
  have "length (split_on CHR ''.'' s) \<noteq> 2"
    using a by (simp add: split_on_length)
  then show ?thesis
    by (auto simp: split_locator_def split: list.splits)
qed

lemma split_locator_one:
  assumes "count_list s CHR ''.'' = 1"
  shows "\<exists>a b. split_locator s = Inr (a, b)"
proof -
  have "length (split_on CHR ''.'' s) = 2"
    using assms by (simp add: split_on_length)
  then obtain a b where "split_on CHR ''.'' s = [a, b]"
    by (auto simp: length_Suc_conv numeral_2_eq_2)
  then show ?thesis by (simp add: split_locator_def)
qed

subsection \<open>One member and the loop\<close>

lemma try_update_member_cases:
  assumes "try_update_member cat m st = Inr (m', st')"
  shows "(m' = m \<and> (st' = st \<or> (\<exists>f. st' = record_failure f st))) \<or>
         (\<exists>l. m' = m\<lparr>version_locator := Some l\<rparr> \<and> version_locator m \<noteq> Some l \<and>
              st' = st\<lparr>updates_made := True\<rparr>)"
  using assms unfolding try_update_member_def
  by (auto split: option.splits sum.splits pyval.splits if_splits prod.splits)

lemma process_member_cases:
  assumes "process_member cat m st = Inr (m', st')"
  shows "(m' = m \<and> (st' = st \<or> (\<exists>f. st' = record_failure f st))) \<or>
         (\<exists>l. m' = m\<lparr>version_locator := Some l\<rparr> \<and> version_locator m \<noteq> Some l \<and>
              st' = st\<lparr>updates_made := True\<rparr>)"
proof (cases "try_update_member cat m st")
  case (Inl e)
  with assms show ?thesis
    by (auto simp: process_member_def split: option.splits)
next
  case (Inr r)
  with assms have "try_update_member cat m st = Inr (m', st')"
    by (simp add: process_member_def)
  then show ?thesis by (rule try_update_member_cases)
qed

lemma try_update_member_changed:
  assumes "try_update_member cat m st = Inr (m', st')" and "m' \<noteq> m"
  shows "\<exists>n loc catalogId versionId v kind fl offeringId updates latest.
           name m = Some n \<and> version_locator m = Some (PyStr loc) \<and>
           split_locator loc = Inr (catalogId, versionId) \<and>
           get_version cat loc = Inr (Some v) \<and>
           version_descriptor v = Inr (kind, fl, offeringId) \<and>
           get_version_updates cat offeringId catalogId kind fl = Inr (Some updates) \<and>
           get_latest_valid_version updates = Some latest \<and>
           update_version_locator latest \<noteq> Some loc \<and>
           m' = m\<lparr>version_locator :=
                  Some (case update_version_locator latest of
                          None \<Rightarrow> PyNone | Some l \<Rightarrow> PyStr l)\<rparr> \<and>
           st' = st\<lparr>updates_made := True\<rparr>"
  using assms unfolding try_update_member_def get_version_locator_def
  by (auto split: option.splits sum.splits pyval.splits if_splits prod.splits)

lemma process_member_named:
  "name m = Some n \<Longrightarrow> \<exists>m' st'. process_member cat m st = Inr (m', st')"
  by (cases "try_update_member cat m st") (auto simp: process_member_def)



lemma update_members_named:
  "\<forall>m\<in>set ms. name m \<noteq> None \<Longrightarrow>
   \<exists>ms' st'. update_members cat ms st = Inr (ms', st') \<and> length ms' = length ms"
proof (induction ms arbitrary: st)
  case Nil
  then show ?case by simp
next
  case (Cons m ms)
  then obtain n where "name m = Some n" by auto
  from process_member_named [OF this] obtain m1 st1 where
    p: "process_member cat m st = Inr (m1, st1)" by blast
  from Cons obtain ms1 st2 where
    "update_members cat ms st1 = Inr (ms1, st2) \<and> length ms1 = length ms" 
    by (metis list.set_intros(2))
  with p show ?case by simp
qed


lemmas run_defs = process_member_def try_update_member_def split_locator_def get_version_def
  version_descriptor_def first_version_def get_version_updates_def get_latest_valid_version_def
  latest_valid_body_def sorted_reverse_def sort_key_of_def record_failure_def
  get_version_locator_def a_catalog_def a_version_def a_member_def an_update_def

text \<open>
  C2, at a member without \<^verbatim>\<open>name\<close>: the \<^verbatim>\<open>try\<close> block raises \<^verbatim>\<open>KeyError\<close> at its first
  statement, the handler raises it again while it formats its message, and the loop ends
  there; the member after it is never processed and no failure is recorded.
\<close>

theorem nameless_member_aborts:
  "update_members (a_catalog [an_update ''c.v2'' (Some True) (Some ''consumable'') (Some ''2024-02'')])
     [a_member None ''c.v1'', a_member (Some ''m2'') ''c.v1'']
     \<lparr>updates_made = False, failures = []\<rparr> = Inl KeyError \<and>
   main_run (a_catalog [an_update ''c.v2'' (Some True) (Some ''consumable'') (Some ''2024-02'')]) False
     [a_member None ''c.v1'', a_member (Some ''m2'') ''c.v1''] = Inl KeyError"
  by (simp add: main_run_def process_member_def try_update_member_def a_member_def)




text \<open>
  C4. Once an update is selected for a member, the locators decide, not the version
  strings. When the \<^verbatim>\<open>version_locator\<close> of the selected update differs from the member's,
  the member's \<^verbatim>\<open>version_locator\<close> becomes that of the selected update (\<^verbatim>\<open>None\<close> when the
  update has no such key) and \<^verbatim>\<open>updates_made\<close> is set; when they are equal, the member and
  the variables stay as they are.
\<close>

theorem member_update_by_locator:
  assumes "name m = Some n" and "version_locator m = Some (PyStr loc)"
    and "split_locator loc = Inr (catalogId, versionId)"
    and "get_version cat loc = Inr (Some v)"
    and "version_descriptor v = Inr (kind, fl, offeringId)"
    and "get_version_updates cat offeringId catalogId kind fl = Inr (Some updates)"
    and "get_latest_valid_version updates = Some latest"
  shows "process_member cat m st =
         Inr (if update_version_locator latest \<noteq> Some loc
              then (m\<lparr>version_locator :=
                       Some (case update_version_locator latest of
                               None \<Rightarrow> PyNone | Some l \<Rightarrow> PyStr l)\<rparr>,
                    st\<lparr>updates_made := True\<rparr>)
              else (m, st))"
  using assms
  by (auto simp: process_member_def try_update_member_def get_version_locator_def
      split: option.splits)

theorem member_update_by_locator_witness:
  "(case first_version a_version of Inl x \<Rightarrow> None | Inr (k, e) \<Rightarrow> version e) =
     update_version (an_update ''c.v2'' (Some True) (Some ''consumable'') (Some ''2024-02'')) \<and>
   process_member
     (a_catalog [an_update ''c.v2'' (Some True) (Some ''consumable'') (Some ''2024-02'')])
     (a_member (Some ''m'') ''c.v1'') \<lparr>updates_made = False, failures = []\<rparr> =
   Inr (a_member (Some ''m'') ''c.v2'', \<lparr>updates_made = True, failures = []\<rparr>) \<and>
   process_member
     (a_catalog [an_update ''c.v2'' (Some True) (Some ''consumable'') (Some ''2024-02'')])
     (a_member (Some ''m'') ''c.v2'') \<lparr>updates_made = False, failures = []\<rparr> =
   Inr (a_member (Some ''m'') ''c.v2'', \<lparr>updates_made = False, failures = []\<rparr>) \<and>
   process_member
     (a_catalog [(an_update ''c.v2'' (Some True) (Some ''consumable'') (Some ''2024-02''))
                   \<lparr>update_version_locator := None\<rparr>])
     (a_member (Some ''m'') ''c.v1'') \<lparr>updates_made = False, failures = []\<rparr> =
   Inr (\<lparr>name = Some ''m'', version_locator = Some PyNone, other_fields = [(''deps'', ''none'')]\<rparr>,
        \<lparr>updates_made = True, failures = []\<rparr>)"
proof -
  let ?u = "an_update ''c.v2'' (Some True) (Some ''consumable'') (Some ''2024-02'')"
  let ?w = "?u\<lparr>update_version_locator := None\<rparr>"
  let ?st = "\<lparr>updates_made = False, failures = []\<rparr>"
  have n: "name (a_member (Some ''m'') loc) = Some ''m''" for loc
    by (simp add: a_member_def)
  have l: "version_locator (a_member (Some ''m'') loc) = Some (PyStr loc)" for loc
    by (simp add: a_member_def)
  have s1: "split_locator ''c.v1'' = Inr (''c'', ''v1'')" by (simp add: split_locator_def)
  have s2: "split_locator ''c.v2'' = Inr (''c'', ''v2'')" by (simp add: split_locator_def)
  have g: "get_version (a_catalog us) loc = Inr (Some a_version)" for us loc
    by (simp add: get_version_def a_catalog_def)
  have d: "version_descriptor a_version = Inr (Some ''terraform'', Some ''standard'', Some ''off1'')"
    by (simp add: version_descriptor_def first_version_def a_version_def)
  have us: "get_version_updates (a_catalog [?u]) (Some ''off1'') ''c'' (Some ''terraform'')
              (Some ''standard'') = Inr (Some [?u])"
    by (simp add: get_version_updates_def a_catalog_def an_update_def)
  have ws: "get_version_updates (a_catalog [?w]) (Some ''off1'') ''c'' (Some ''terraform'')
              (Some ''standard'') = Inr (Some [?w])"
    by (simp add: get_version_updates_def a_catalog_def an_update_def)
  have lv: "get_latest_valid_version [?u] = Some ?u"
    by (simp add: get_latest_valid_version_def latest_valid_body_def sorted_reverse_def
        sort_key_of_def an_update_def)
  have lw: "get_latest_valid_version [?w] = Some ?w"
    by (simp add: get_latest_valid_version_def latest_valid_body_def sorted_reverse_def
        sort_key_of_def an_update_def)
  have v: "(case first_version a_version of Inl x \<Rightarrow> None | Inr (k, e) \<Rightarrow> version e) =
           update_version ?u"
    by (simp add: first_version_def a_version_def an_update_def)
  show ?thesis
    using member_update_by_locator [OF n l s1 g d us lv, of ?st] member_update_by_locator [OF n l s2 g d us lv, of ?st]
      member_update_by_locator [OF n l s1 g d ws lw, of ?st] v
    by (simp add: a_member_def an_update_def)
qed

text \<open>
  C7, as stated, fails: \<^verbatim>\<open>"cat123."\<close> splits into two parts, the second empty, and nothing
  rejects it; the member goes on to the catalog and is even updated.
\<close>

theorem locator_empty_part_accepted:
  "split_locator ''cat123.'' = Inr (''cat123'', '''') \<and>
   process_member
     (a_catalog [an_update ''cat123.ver789'' (Some True) (Some ''consumable'') (Some ''2024-02'')])
     (a_member (Some ''m'') ''cat123.'') \<lparr>updates_made = False, failures = []\<rparr> =
   Inr (a_member (Some ''m'') ''cat123.ver789'', \<lparr>updates_made = True, failures = []\<rparr>)"
  by (simp add: run_defs)

text \<open>
  C7, amended. \<^verbatim>\<open>"cat123.ver456"\<close> splits to \<^verbatim>\<open>("cat123", "ver456")\<close>. A locator with exactly
  one separator splits into the part before it and the part after it, either of which may
  be empty. A locator with no separator or with more than one raises \<^verbatim>\<open>ValueError\<close>; for a
  member that carries a name, the loop records it as a failure of that member, leaves the
  member as it was and goes on with the members after it.
\<close>

theorem locator_split_two_parts:
  "split_locator ''cat123.ver456'' = Inr (''cat123'', ''ver456'') \<and>
   (count_list loc CHR ''.'' = 1 \<longrightarrow>
      (\<exists>a b. loc = a @ ''.'' @ b \<and> split_locator loc = Inr (a, b))) \<and>
   (count_list loc CHR ''.'' \<noteq> 1 \<longrightarrow>
      split_locator loc = Inl ValueError \<and>
      process_member cat \<lparr>name = Some n, version_locator = Some (PyStr loc), other_fields = others\<rparr> st =
        Inr (\<lparr>name = Some n, version_locator = Some (PyStr loc), other_fields = others\<rparr>,
             record_failure (Error_updating_member n ValueError) st) \<and>
      update_members cat
        (\<lparr>name = Some n, version_locator = Some (PyStr loc), other_fields = others\<rparr> # ms) st =
        (case update_members cat ms (record_failure (Error_updating_member n ValueError) st) of
           Inl e \<Rightarrow> Inl e
         | Inr (ms', st') \<Rightarrow>
             Inr (\<lparr>name = Some n, version_locator = Some (PyStr loc), other_fields = others\<rparr> # ms',
                  st')))"
proof (intro conjI impI)
  show "split_locator ''cat123.ver456'' = Inr (''cat123'', ''ver456'')"
    by (simp add: split_locator_def)
next
  assume "count_list loc CHR ''.'' = 1"
  from split_locator_one [OF this] obtain a b where ab: "split_locator loc = Inr (a, b)"
    by blast
  then have "loc = a @ ''.'' @ b" by (simp add: split_locator_Inr_iff)
  with ab show "\<exists>a b. loc = a @ ''.'' @ b \<and> split_locator loc = Inr (a, b)" by blast
next
  assume c: "count_list loc CHR ''.'' \<noteq> 1"
  let ?m = "\<lparr>name = Some n, version_locator = Some (PyStr loc), other_fields = others\<rparr>"
  show e: "split_locator loc = Inl ValueError" by (rule split_locator_count [OF c])
  show p: "process_member cat ?m st =
        Inr (?m, record_failure (Error_updating_member n ValueError) st)"
    by (simp add: process_member_def try_update_member_def e)
  show "update_members cat (?m # ms) st =
        (case update_members cat ms (record_failure (Error_updating_member n ValueError) st) of
           Inl e \<Rightarrow> Inl e
         | Inr (ms', st') \<Rightarrow> Inr (?m # ms', st'))"
    by (simp add: p)
qed

theorem locator_split_two_parts_witness:
  "count_list ''cat123.ver456'' CHR ''.'' = 1 \<and>
   split_locator ''cat123.ver456'' = Inr (''cat123'', ''ver456'') \<and>
   count_list ''malformed'' CHR ''.'' \<noteq> 1 \<and>
   split_locator ''malformed'' = Inl ValueError \<and>
   update_members
     (a_catalog [an_update ''c.v2'' (Some True) (Some ''consumable'') (Some ''2024-02'')])
     [a_member (Some ''m1'') ''malformed'', a_member (Some ''m2'') ''c.v1'']
     \<lparr>updates_made = False, failures = []\<rparr> =
   Inr ([a_member (Some ''m1'') ''malformed'', a_member (Some ''m2'') ''c.v2''],
        \<lparr>updates_made = True, failures = [Error_updating_member ''m1'' ValueError]\<rparr>)"
proof -
  let ?cat = "a_catalog [an_update ''c.v2'' (Some True) (Some ''consumable'') (Some ''2024-02'')]"
  let ?st = "\<lparr>updates_made = False, failures = []\<rparr>"
  have c1: "count_list ''cat123.ver456'' CHR ''.'' = 1" by simp
  have c0: "count_list ''malformed'' CHR ''.'' \<noteq> 1" by simp
  have rest: "update_members ?cat [a_member (Some ''m2'') ''c.v1'']
                (record_failure (Error_updating_member ''m1'' ValueError) ?st) =
              Inr ([a_member (Some ''m2'') ''c.v2''],
                   \<lparr>updates_made = True, failures = [Error_updating_member ''m1'' ValueError]\<rparr>)"
    by (simp add: run_defs)
  note t = locator_split_two_parts
    [of "''malformed''" ?cat "''m1''" "[(''deps'', ''none'')]" ?st
        "[a_member (Some ''m2'') ''c.v1'']"]
  from t c0 have e: "split_locator ''malformed'' = Inl ValueError" by blast
  from t c0 have
    "update_members ?cat
       (\<lparr>name = Some ''m1'', version_locator = Some (PyStr ''malformed''),
          other_fields = [(''deps'', ''none'')]\<rparr> # [a_member (Some ''m2'') ''c.v1'']) ?st =
     (case update_members ?cat [a_member (Some ''m2'') ''c.v1'']
             (record_failure (Error_updating_member ''m1'' ValueError) ?st) of
        Inl e \<Rightarrow> Inl e
      | Inr (ms', st') \<Rightarrow>
          Inr (\<lparr>name = Some ''m1'', version_locator = Some (PyStr ''malformed''),
                 other_fields = [(''deps'', ''none'')]\<rparr> # ms', st'))"
    by blast
  then have u: "update_members ?cat
              [a_member (Some ''m1'') ''malformed'', a_member (Some ''m2'') ''c.v1''] ?st =
            Inr ([a_member (Some ''m1'') ''malformed'', a_member (Some ''m2'') ''c.v2''],
                 \<lparr>updates_made = True, failures = [Error_updating_member ''m1'' ValueError]\<rparr>)"
    unfolding rest by (simp add: a_member_def del: update_members.simps)
  from locator_split_two_parts [of "''cat123.ver456''"]
  have "split_locator ''cat123.ver456'' = Inr (''cat123'', ''ver456'')" by blast
  with c1 c0 e u show ?thesis by simp
qed

text \<open>
  C9. For a member that carries a name, every way the resolution can fail leaves the
  member exactly as it was and records the failure: an absent or \<^verbatim>\<open>None\<close> locator, a
  locator that does not split, \<^verbatim>\<open>get_version\<close> raising or returning \<^verbatim>\<open>None\<close>, a version
  whose kind, version or flavor cannot be read, \<^verbatim>\<open>get_version_updates\<close> raising or
  returning \<^verbatim>\<open>None\<close>, and a selection that returns \<^verbatim>\<open>None\<close>. Whenever an iteration
  records a failure, the member is unchanged. A member changes only when an update is
  applied: an update was selected for it whose \<^verbatim>\<open>version_locator\<close> differs from the
  member's, only \<^verbatim>\<open>version_locator\<close> changes, to that of the selected update, no failure
  is recorded and \<^verbatim>\<open>updates_made\<close> is set.
\<close>

theorem failed_member_unchanged:
  "(name m = Some n \<longrightarrow>
     (version_locator m = None \<longrightarrow>
        process_member cat m st =
          Inr (m, record_failure (Error_updating_member n KeyError) st)) \<and>
     (version_locator m = Some PyNone \<longrightarrow>
        process_member cat m st =
          Inr (m, record_failure (Error_updating_member n AttributeError) st)) \<and>
     (\<forall>loc. version_locator m = Some (PyStr loc) \<longrightarrow>
        (\<forall>e. split_locator loc = Inl e \<longrightarrow>
           process_member cat m st =
             Inr (m, record_failure (Error_updating_member n e) st)) \<and>
        (\<forall>catalogId versionId. split_locator loc = Inr (catalogId, versionId) \<longrightarrow>
           (\<forall>e. get_version cat loc = Inl e \<longrightarrow>
              process_member cat m st =
                Inr (m, record_failure (Error_updating_member n e) st)) \<and>
           (get_version cat loc = Inr None \<longrightarrow>
              process_member cat m st =
                Inr (m, record_failure (Failed_to_get_version n loc) st)) \<and>
           (\<forall>v. get_version cat loc = Inr (Some v) \<longrightarrow>
              (\<forall>e. version_descriptor v = Inl e \<longrightarrow>
                 process_member cat m st =
                   Inr (m, record_failure (Error_updating_member n e) st)) \<and>
              (\<forall>kind fl offeringId. version_descriptor v = Inr (kind, fl, offeringId) \<longrightarrow>
                 (\<forall>e. get_version_updates cat offeringId catalogId kind fl = Inl e \<longrightarrow>
                    process_member cat m st =
                      Inr (m, record_failure (Error_updating_member n e) st)) \<and>
                 (get_version_updates cat offeringId catalogId kind fl = Inr None \<longrightarrow>
                    process_member cat m st =
                      Inr (m, record_failure (Failed_to_get_version_updates offeringId) st)) \<and>
                 (\<forall>updates.
                    get_version_updates cat offeringId catalogId kind fl = Inr (Some updates) \<longrightarrow>
                    get_latest_valid_version updates = None \<longrightarrow>
                    process_member cat m st =
                      Inr (m, record_failure
                                (Failed_to_get_latest_valid_version updates) st))))))) \<and>
   (\<forall>m' st'. process_member cat m st = Inr (m', st') \<longrightarrow>
      (failures st' \<noteq> failures st \<longrightarrow> m' = m) \<and>
      (m' \<noteq> m \<longrightarrow>
         (\<exists>n loc catalogId versionId v kind fl offeringId updates latest.
            name m = Some n \<and> version_locator m = Some (PyStr loc) \<and>
            split_locator loc = Inr (catalogId, versionId) \<and>
            get_version cat loc = Inr (Some v) \<and>
            version_descriptor v = Inr (kind, fl, offeringId) \<and>
            get_version_updates cat offeringId catalogId kind fl = Inr (Some updates) \<and>
            get_latest_valid_version updates = Some latest \<and>
            update_version_locator latest \<noteq> Some loc \<and>
            m' = m\<lparr>version_locator :=
                   Some (case update_version_locator latest of
                           None \<Rightarrow> PyNone | Some l \<Rightarrow> PyStr l)\<rparr> \<and>
            st' = st\<lparr>updates_made := True\<rparr>)))"
proof (rule conjI, goal_cases)
  case 1
  show ?case by (simp add: process_member_def try_update_member_def)
next
  case 2
  show ?case
  proof (intro allI impI conjI)
    fix m' st'
    assume p: "process_member cat m st = Inr (m', st')"
    from process_member_cases [OF p]
    show "m' = m" if "failures st' \<noteq> failures st"
      using that by (auto simp: record_failure_def)
    assume ne: "m' \<noteq> m"
    have "try_update_member cat m st = Inr (m', st')"
    proof (cases "try_update_member cat m st")
      case (Inl e)
      with p ne show ?thesis by (auto simp: process_member_def split: option.splits)
    next
      case (Inr r)
      with p show ?thesis by (simp add: process_member_def)
    qed
    from try_update_member_changed [OF this ne]
    show "\<exists>n loc catalogId versionId v kind fl offeringId updates latest.
            name m = Some n \<and> version_locator m = Some (PyStr loc) \<and>
            split_locator loc = Inr (catalogId, versionId) \<and>
            get_version cat loc = Inr (Some v) \<and>
            version_descriptor v = Inr (kind, fl, offeringId) \<and>
            get_version_updates cat offeringId catalogId kind fl = Inr (Some updates) \<and>
            get_latest_valid_version updates = Some latest \<and>
            update_version_locator latest \<noteq> Some loc \<and>
            m' = m\<lparr>version_locator :=
                   Some (case update_version_locator latest of
                           None \<Rightarrow> PyNone | Some l \<Rightarrow> PyStr l)\<rparr> \<and>
            st' = st\<lparr>updates_made := True\<rparr>" .
  qed
qed

theorem failed_member_unchanged_witness:
  "process_member
     ((a_catalog [])\<lparr>service_get_version := \<lambda>loc. Inl ServiceError\<rparr>)
     (a_member (Some ''m'') ''c.v1'') \<lparr>updates_made = False, failures = []\<rparr> =
   Inr (a_member (Some ''m'') ''c.v1'',
        \<lparr>updates_made = False, failures = [Failed_to_get_version ''m'' ''c.v1'']\<rparr>) \<and>
   process_member
     ((a_catalog [])\<lparr>service_get_offering_updates := \<lambda>catalogId offeringId kind. Inl ServiceError\<rparr>)
     (a_member (Some ''m'') ''c.v1'') \<lparr>updates_made = False, failures = []\<rparr> =
   Inr (a_member (Some ''m'') ''c.v1'',
        \<lparr>updates_made = False, failures = [Failed_to_get_version_updates (Some ''off1'')]\<rparr>) \<and>
   process_member (a_catalog []) (a_member (Some ''m'') ''c.v1'')
     \<lparr>updates_made = False, failures = []\<rparr> =
   Inr (a_member (Some ''m'') ''c.v1'',
        \<lparr>updates_made = False, failures = [Failed_to_get_latest_valid_version []]\<rparr>) \<and>
   process_member (a_catalog []) (a_member (Some ''m'') ''malformed'')
     \<lparr>updates_made = False, failures = []\<rparr> =
   Inr (a_member (Some ''m'') ''malformed'',
        \<lparr>updates_made = False, failures = [Error_updating_member ''m'' ValueError]\<rparr>) \<and>
   process_member
     (a_catalog [an_update ''c.v2'' (Some True) (Some ''consumable'') (Some ''2024-02'')])
     (a_member (Some ''m'') ''c.v1'') \<lparr>updates_made = False, failures = []\<rparr> =
   Inr (a_member (Some ''m'') ''c.v2'', \<lparr>updates_made = True, failures = []\<rparr>) \<and>
   a_member (Some ''m'') ''c.v2'' \<noteq> a_member (Some ''m'') ''c.v1'' \<and>
   get_latest_valid_version
     [an_update ''c.v2'' (Some True) (Some ''consumable'') (Some ''2024-02'')] =
   Some (an_update ''c.v2'' (Some True) (Some ''consumable'') (Some ''2024-02''))"
proof -
  let ?st = "\<lparr>updates_made = False, failures = []\<rparr>"
  let ?m = "a_member (Some ''m'') ''c.v1''"
  let ?bad = "a_member (Some ''m'') ''malformed''"
  let ?down = "(a_catalog [])\<lparr>service_get_version := \<lambda>loc. Inl ServiceError\<rparr>"
  let ?noup = "(a_catalog [])
                 \<lparr>service_get_offering_updates := \<lambda>catalogId offeringId kind. Inl ServiceError\<rparr>"
  let ?u = "an_update ''c.v2'' (Some True) (Some ''consumable'') (Some ''2024-02'')"
  have n: "name (a_member (Some ''m'') loc) = Some ''m''" for loc
    by (simp add: a_member_def)
  have l: "version_locator (a_member (Some ''m'') loc) = Some (PyStr loc)" for loc
    by (simp add: a_member_def)
  have s: "split_locator ''c.v1'' = Inr (''c'', ''v1'')" by (simp add: split_locator_def)
  have sb: "split_locator ''malformed'' = Inl ValueError" by (simp add: split_locator_def)
  have d: "version_descriptor a_version = Inr (Some ''terraform'', Some ''standard'', Some ''off1'')"
    by (simp add: version_descriptor_def first_version_def a_version_def)
  have g0: "get_version ?down ''c.v1'' = Inr None"
    by (simp add: get_version_def a_catalog_def)
  have g1: "get_version ?noup ''c.v1'' = Inr (Some a_version)"
    by (simp add: get_version_def a_catalog_def)
  have g2: "get_version (a_catalog []) ''c.v1'' = Inr (Some a_version)"
    by (simp add: get_version_def a_catalog_def)
  have u1: "get_version_updates ?noup (Some ''off1'') ''c'' (Some ''terraform'') (Some ''standard'') =
            Inr None"
    by (simp add: get_version_updates_def a_catalog_def)
  have u2: "get_version_updates (a_catalog []) (Some ''off1'') ''c'' (Some ''terraform'')
              (Some ''standard'') = Inr (Some [])"
    by (simp add: get_version_updates_def a_catalog_def)
  have lv: "get_latest_valid_version [] = None"
    by (simp add: get_latest_valid_version_def latest_valid_body_def sorted_reverse_def)
  have c1: "process_member ?down ?m ?st =
            Inr (?m, record_failure (Failed_to_get_version ''m'' ''c.v1'') ?st)"
    using failed_member_unchanged [of ?m "''m''" ?down ?st] n l s g0 by blast
  have c2: "process_member ?noup ?m ?st =
            Inr (?m, record_failure (Failed_to_get_version_updates (Some ''off1'')) ?st)"
    using failed_member_unchanged [of ?m "''m''" ?noup ?st] n l s g1 d u1 by blast
  have c3: "process_member (a_catalog []) ?m ?st =
            Inr (?m, record_failure (Failed_to_get_latest_valid_version []) ?st)"
    using failed_member_unchanged [of ?m "''m''" "a_catalog []" ?st] n l s g2 d u2 lv by blast
  have c4: "process_member (a_catalog []) ?bad ?st =
            Inr (?bad, record_failure (Error_updating_member ''m'' ValueError) ?st)"
    using failed_member_unchanged [of ?bad "''m''" "a_catalog []" ?st] n l sb by blast
  have p: "process_member (a_catalog [?u]) ?m ?st =
           Inr (a_member (Some ''m'') ''c.v2'', \<lparr>updates_made = True, failures = []\<rparr>)"
    by (simp add: run_defs)
  have ne: "a_member (Some ''m'') ''c.v2'' \<noteq> ?m" by (simp add: a_member_def)
  from failed_member_unchanged [of ?m "''m''" "a_catalog [?u]" ?st] p ne
  obtain v kind fl offeringId updates latest where
    "get_version (a_catalog [?u]) ''c.v1'' = Inr (Some v)"
    "version_descriptor v = Inr (kind, fl, offeringId)"
    "get_version_updates (a_catalog [?u]) offeringId ''c'' kind fl = Inr (Some updates)"
    "get_latest_valid_version updates = Some latest"
    using l s by fastforce
  then have "get_latest_valid_version [?u] = Some latest"
    using d by (auto simp: get_version_def get_version_updates_def a_catalog_def an_update_def)
  moreover from this have "latest = ?u"
    by (auto dest: latest_valid_sound)
  ultimately have sel: "get_latest_valid_version [?u] = Some ?u" by simp
  from c1 c2 c3 c4 p ne sel show ?thesis by (simp add: record_failure_def)
qed

end
